theory Spec2Isabelle
  imports Main "HOL-Library.Word" "HOL-Library.List_Lexorder"
begin

unbundle bit_operations_syntax

section \<open>Python values\<close>

text \<open>
  A Python \<open>str\<close> is a sequence of Unicode code points, a \<open>bytes\<close> object a sequence of
  octets. The string literals of the source that are not ASCII are written out code point
  by code point. An exception is a value: its class and the text \<open>str(e)\<close> renders.
\<close>

type_synonym str = "nat list"
type_synonym byte = "8 word"
type_synonym bytes = "byte list"

definition cps :: "string \<Rightarrow> str" where
  "cps s = map of_char s"

datatype exc_kind =
  FileNotFoundError | ValueError | StructError | BadZipFile | ZlibError | ParseError
  | OtherException

datatype py_exception = PyExc (exc_kind_of: exc_kind) (exc_str: str)

text \<open>The outcome of a loop body: \<open>break\<close>, a raised exception, or the next loop state.\<close>

datatype 'a flow = Break | Raise py_exception | Go 'a

text \<open>\<open>str.isspace\<close> for one code point: the characters \<open>str.strip()\<close> removes.\<close>

definition py_isspace :: "nat \<Rightarrow> bool" where
  "py_isspace c \<longleftrightarrow>
     (0x09 \<le> c \<and> c \<le> 0x0D) \<or> (0x1C \<le> c \<and> c \<le> 0x20) \<or> c = 0x85 \<or> c = 0xA0 \<or>
     c = 0x1680 \<or> (0x2000 \<le> c \<and> c \<le> 0x200A) \<or> c = 0x2028 \<or> c = 0x2029 \<or>
     c = 0x202F \<or> c = 0x205F \<or> c = 0x3000"

definition strip :: "str \<Rightarrow> str" where
  "strip s = rev (dropWhile py_isspace (rev (dropWhile py_isspace s)))"

text \<open>\<open>text.split('\n')\<close>: always at least one piece.\<close>

fun split_nl :: "str \<Rightarrow> str list" where
  "split_nl [] = [[]]"
| "split_nl (c # cs) =
     (if c = 0x0A then [] # split_nl cs
      else (case split_nl cs of [] \<Rightarrow> [[c]] | l # ls \<Rightarrow> (c # l) # ls))"

text \<open>\<open>sep.join(xs)\<close>.\<close>

fun join :: "str \<Rightarrow> str list \<Rightarrow> str" where
  "join sep [] = []"
| "join sep [x] = x"
| "join sep (x # y # ys) = x @ sep @ join sep (y # ys)"

definition startswith :: "str \<Rightarrow> str \<Rightarrow> bool" where
  "startswith s p \<longleftrightarrow> take (length p) s = p"

definition endswith :: "str \<Rightarrow> str \<Rightarrow> bool" where
  "endswith s p \<longleftrightarrow> length p \<le> length s \<and> drop (length s - length p) s = p"

text \<open>
  The decimal digits of the Unicode database (category \<open>Nd\<close>, Unicode 14.0): the
  characters that \<open>\d\<close> matches in a \<open>str\<close> pattern and that \<open>int()\<close> reads. They come in
  runs of ten, from the digit zero to the digit nine of a script; \<open>decimal_zeros\<close> lists
  the zero of each run.
\<close>

definition decimal_zeros :: "nat list" where
  "decimal_zeros =
     [0x30, 0x660, 0x6F0, 0x7C0, 0x966, 0x9E6, 0xA66, 0xAE6, 0xB66, 0xBE6, 0xC66, 0xCE6, 0xD66,
      0xDE6, 0xE50, 0xED0, 0xF20, 0x1040, 0x1090, 0x17E0, 0x1810, 0x1946, 0x19D0, 0x1A80, 0x1A90,
      0x1B50, 0x1BB0, 0x1C40, 0x1C50, 0xA620, 0xA8D0, 0xA900, 0xA9D0, 0xA9F0, 0xAA50, 0xABF0,
      0xFF10, 0x104A0, 0x10D30, 0x11066, 0x110F0, 0x11136, 0x111D0, 0x112F0, 0x11450, 0x114D0,
      0x11650, 0x116C0, 0x11730, 0x118E0, 0x11950, 0x11C50, 0x11D50, 0x11DA0, 0x16A60, 0x16AC0,
      0x16B50, 0x1D7CE, 0x1D7D8, 0x1D7E2, 0x1D7EC, 0x1D7F6, 0x1E140, 0x1E2F0, 0x1E950, 0x1FBF0]"

text \<open>\<open>unicodedata.decimal(c)\<close>: the value of a decimal digit, \<open>None\<close> for any other character.\<close>

definition decimal_value :: "nat \<Rightarrow> nat option" where
  "decimal_value c =
     (case find (\<lambda>z. z \<le> c \<and> c < z + 10) decimal_zeros of
        None \<Rightarrow> None
      | Some z \<Rightarrow> Some (c - z))"

definition is_digit :: "nat \<Rightarrow> bool" where
  "is_digit c \<longleftrightarrow> decimal_value c \<noteq> None"

text \<open>
  \<open>re.sub(r'\n{3,}', '\n\n', text)\<close>: scanning from the left, every maximal run of three
  or more line feeds is replaced by two; everything else is copied.
\<close>

function sub_newlines :: "str \<Rightarrow> str" where
  "sub_newlines [] = []"
| "sub_newlines (c # cs) =
     (if c = 0x0A then
        (let run = takeWhile (\<lambda>d. d = 0x0A) cs; rest = dropWhile (\<lambda>d. d = 0x0A) cs
         in (if length run \<ge> 2 then [0x0A, 0x0A] else c # run) @ sub_newlines rest)
      else c # sub_newlines cs)"
  by pat_completeness auto
termination
  by (relation "measure length") (auto simp: less_Suc_eq_le length_dropWhile_le)

section \<open>Text normalizer: \<open>FileParser._clean_text\<close>\<close>

definition clean_text :: "str \<Rightarrow> str" where
  "clean_text text =
     (if text = [] then []
      else strip (join [0x0A] (map strip (split_nl (sub_newlines text)))))"

section \<open>Binary records: \<open>struct\<close>, \<open>_decode_hwp_text\<close>, \<open>_extract_text_from_hwp_records\<close>\<close>

text \<open>
  \<open>struct.unpack_from("<H", data, i)[0]\<close> and \<open>struct.unpack_from("<I", data, offset)[0]\<close>:
  little-endian reads that raise \<open>struct.error\<close> when the buffer is too short.
  \<open>struct.pack\<close> is their inverse, used by the test-suite's record builder.
\<close>

definition unpack_from_H :: "bytes \<Rightarrow> nat \<Rightarrow> py_exception + 16 word" where
  "unpack_from_H data i =
     (if i + 2 \<le> length data
      then Inr (ucast (data ! i) OR push_bit 8 (ucast (data ! (i + 1))))
      else Inl (PyExc StructError []))"

definition unpack_from_I :: "bytes \<Rightarrow> nat \<Rightarrow> py_exception + 32 word" where
  "unpack_from_I data offset =
     (if offset + 4 \<le> length data
      then Inr (ucast (data ! offset) OR push_bit 8 (ucast (data ! (offset + 1))) OR
                push_bit 16 (ucast (data ! (offset + 2))) OR
                push_bit 24 (ucast (data ! (offset + 3))))
      else Inl (PyExc StructError []))"

definition pack_H :: "16 word \<Rightarrow> bytes" where
  "pack_H u = [ucast u, ucast (drop_bit 8 u)]"

definition pack_I :: "32 word \<Rightarrow> bytes" where
  "pack_I w = [ucast w, ucast (drop_bit 8 w), ucast (drop_bit 16 w), ucast (drop_bit 24 w)]"

text \<open>\<open>chr(i)\<close> raises \<open>ValueError\<close> outside \<open>range(0x110000)\<close>.\<close>

definition py_chr :: "nat \<Rightarrow> py_exception + nat" where
  "py_chr i = (if i < 0x110000 then Inr i else Inl (PyExc ValueError []))"

definition extended_controls :: "16 word list" where
  "extended_controls = [0x0003, 0x0011, 0x0012, 0x0013, 0x0014, 0x0015, 0x0016, 0x0017, 0x0018]"

text \<open>
  The \<open>while i < len(data) - 1\<close> loop of \<open>_decode_hwp_text\<close>; \<open>len(data) - 1\<close> is a Python
  integer and may be \<open>-1\<close>. Both branches for control codes advance by two bytes, as in
  the source.
\<close>

function decode_loop :: "bytes \<Rightarrow> nat \<Rightarrow> str list \<Rightarrow> py_exception + str" where
  "decode_loop data i result =
     (if int i < int (length data) - 1 then
        (case unpack_from_H data i of
           Inl e \<Rightarrow> Inl e
         | Inr code \<Rightarrow>
             if code = 0x000D then decode_loop data (i + 2) (result @ [[0x0A]])
             else if code \<le> 0x001F then
               (if code \<in> set extended_controls then decode_loop data (i + 2) result
                else decode_loop data (i + 2) result)
             else
               (case py_chr (unat code) of
                  Inl e \<Rightarrow> decode_loop data (i + 2) result
                | Inr char \<Rightarrow> decode_loop data (i + 2) (result @ [[char]])))
      else Inr (concat result))"
  by pat_completeness auto
termination
  by (relation "measure (\<lambda>(data, i, acc). length data - i)") auto

definition decode_hwp_text :: "bytes \<Rightarrow> py_exception + str" where
  "decode_hwp_text data = decode_loop data 0 []"

text \<open>
  The fields of a record header. The source computes \<open>tag_id\<close> and \<open>size\<close>; the line for
  \<open>level\<close> is kept there as a comment (\<open>level = (header >> 10) & 0x3FF\<close>, unused).
\<close>

definition tag_id_of :: "32 word \<Rightarrow> 32 word" where
  "tag_id_of header = header AND 0x3FF"

definition level_of :: "32 word \<Rightarrow> 32 word" where
  "level_of header = drop_bit 10 header AND 0x3FF"

definition size_of :: "32 word \<Rightarrow> nat" where
  "size_of header = unat (drop_bit 20 header AND 0xFFF)"

text \<open>The escape: a size field of \<open>0xFFF\<close> is followed by the real size.\<close>

definition read_size :: "bytes \<Rightarrow> nat \<Rightarrow> nat \<Rightarrow> (nat \<times> nat) flow" where
  "read_size data offset sz =
     (if sz = 0xFFF then
        (if offset + 4 > length data then Break
         else (case unpack_from_I data offset of
                 Inl e \<Rightarrow> Raise e
               | Inr w \<Rightarrow> Go (offset + 4, unat w)))
      else Go (offset, sz))"

text \<open>One record header: tag, offset of the payload and size of the payload.\<close>

definition read_record_header :: "bytes \<Rightarrow> nat \<Rightarrow> (32 word \<times> nat \<times> nat) flow" where
  "read_record_header data offset =
     (if offset + 4 > length data then Break
      else (case unpack_from_I data offset of
              Inl e \<Rightarrow> Raise e
            | Inr header \<Rightarrow>
                (case read_size data (offset + 4) (size_of header) of
                   Break \<Rightarrow> Break
                 | Raise e \<Rightarrow> Raise e
                 | Go (offset', sz) \<Rightarrow>
                     if offset' + sz > length data then Break
                     else Go (tag_id_of header, offset', sz))))"

text \<open>One iteration of the \<open>while offset < data_len\<close> loop.\<close>

definition record_step :: "bytes \<Rightarrow> nat \<Rightarrow> str list \<Rightarrow> (nat \<times> str list) flow" where
  "record_step data offset texts =
     (case read_record_header data offset of
        Break \<Rightarrow> Break
      | Raise e \<Rightarrow> Raise e
      | Go (tag_id, offset', sz) \<Rightarrow>
          if tag_id = 67 then
            (case decode_hwp_text (take sz (drop offset' data)) of
               Inl e \<Rightarrow> Raise e
             | Inr text \<Rightarrow>
                 Go (offset' + sz, if strip text \<noteq> [] then texts @ [text] else texts))
          else Go (offset' + sz, texts))"

function extract_loop :: "bytes \<Rightarrow> nat \<Rightarrow> str list \<Rightarrow> py_exception + str list" where
  "extract_loop data offset texts =
     (if offset < length data then
        (case record_step data offset texts of
           Break \<Rightarrow> Inr texts
         | Raise e \<Rightarrow> Inl e
         | Go (offset', texts') \<Rightarrow> extract_loop data offset' texts')
      else Inr texts)"
  by pat_completeness auto
termination
  by (relation "measure (\<lambda>(data, offset, texts). length data - offset)")
     (auto simp: record_step_def read_record_header_def read_size_def
           split: flow.splits sum.splits if_splits prod.splits)

definition extract_text_from_hwp_records :: "bytes \<Rightarrow> py_exception + str" where
  "extract_text_from_hwp_records data =
     (case extract_loop data 0 [] of Inl e \<Rightarrow> Inl e | Inr texts \<Rightarrow> Inr (join [0x0A] texts))"

subsection \<open>The test-suite's builders\<close>

text \<open>
  \<open>str.encode("utf-16-le")\<close>: one code unit for a code point of the Basic Multilingual
  Plane, a surrogate pair above it, \<open>UnicodeEncodeError\<close> (here \<open>None\<close>) for a lone
  surrogate.
\<close>

definition utf16_units :: "nat \<Rightarrow> 16 word list option" where
  "utf16_units c =
     (if c < 0xD800 \<or> (0xE000 \<le> c \<and> c < 0x10000) then Some [of_nat c]
      else if 0x10000 \<le> c \<and> c < 0x110000 then
        Some [of_nat (0xD800 + (c - 0x10000) div 0x400), of_nat (0xDC00 + (c - 0x10000) mod 0x400)]
      else None)"

fun encode_utf16le :: "str \<Rightarrow> bytes option" where
  "encode_utf16le [] = Some []"
| "encode_utf16le (c # cs) =
     (case utf16_units c of
        None \<Rightarrow> None
      | Some us \<Rightarrow>
          (case encode_utf16le cs of
             None \<Rightarrow> None
           | Some bs \<Rightarrow> Some (concat (map pack_H us) @ bs)))"

text \<open>
  \<open>TestHWPParser._build_hwp_record(tag_id, data, level)\<close>; \<open>struct.pack("<I", size)\<close>
  raises for a size of \<open>2 ^ 32\<close> or more.
\<close>

definition build_hwp_record :: "nat \<Rightarrow> bytes \<Rightarrow> nat \<Rightarrow> py_exception + bytes" where
  "build_hwp_record tag_id data level =
     (let sz = length data in
      if sz \<ge> 0xFFF then
        (if sz < 2 ^ 32 then
           Inr (pack_I ((of_nat tag_id AND 0x3FF) OR push_bit 10 (of_nat level AND 0x3FF) OR
                        push_bit 20 0xFFF) @ pack_I (of_nat sz) @ data)
         else Inl (PyExc StructError []))
      else
        Inr (pack_I ((of_nat tag_id AND 0x3FF) OR push_bit 10 (of_nat level AND 0x3FF) OR
                     push_bit 20 (of_nat sz AND 0xFFF)) @ data))"

text \<open>A stream of records, built one after the other (\<open>records += _build_hwp_record(...)\<close>).\<close>

fun build_stream :: "(nat \<times> bytes \<times> nat) list \<Rightarrow> py_exception + bytes" where
  "build_stream [] = Inr []"
| "build_stream ((tag_id, data, level) # rs) =
     (case build_hwp_record tag_id data level of
        Inl e \<Rightarrow> Inl e
      | Inr b \<Rightarrow> (case build_stream rs of Inl e \<Rightarrow> Inl e | Inr bs \<Rightarrow> Inr (b @ bs)))"

section \<open>The libraries the extractors call\<close>

text \<open>
  The file system and the libraries (\<open>os.path\<close>, \<open>olefile\<close>, \<open>zipfile\<close>, \<open>zlib\<close>,
  \<open>xml.etree.ElementTree\<close>, \<open>pdfplumber\<close>) are not part of the program. A \<open>world\<close> gives
  what each call returns or raises.
\<close>

text \<open>An \<open>ElementTree\<close> element: its tag (\<open>{uri}local\<close> when namespaced), text and children.\<close>

datatype xml = Element (elem_tag: str) (elem_text: "str option") (elem_children: "xml list")

text \<open>An open \<open>ZipFile\<close>: \<open>namelist()\<close> and \<open>read(name)\<close>.\<close>

record zip_archive =
  namelist :: "str list"
  zread :: "str \<Rightarrow> py_exception + bytes"

text \<open>An open \<open>OleFileIO\<close>: \<open>exists\<close>, \<open>listdir()\<close> and \<open>openstream(path).read()\<close>.\<close>

record ole_file =
  ole_exists :: "str list \<Rightarrow> bool"
  listdir :: "str list list"
  openstream :: "str list \<Rightarrow> py_exception + bytes"

text \<open>A page of an open PDF: what \<open>page.extract_text()\<close> returns (\<open>None\<close> or a string) or raises.\<close>

type_synonym pdf_page = "py_exception + str option"

record world =
  path_exists :: "str \<Rightarrow> bool"
  path_seps :: "nat list"
  supported_listing :: str
  str_lower :: "str \<Rightarrow> str"
  ole_open :: "str \<Rightarrow> py_exception + ole_file option"
  zip_open :: "str \<Rightarrow> py_exception + zip_archive"
  pdf_open :: "str \<Rightarrow> py_exception + pdf_page list"
  inflate :: "bytes \<Rightarrow> py_exception + bytes"
  fromstring :: "bytes \<Rightarrow> py_exception + xml"

text \<open>
  \<^item> \<open>path_exists\<close> is \<open>os.path.exists\<close>; \<open>path_seps\<close> the separators of \<open>os.path\<close>
    (the slash; on Windows the backslash and the slash).
  \<^item> \<open>supported_listing\<close> is \<open>', '.join(SUPPORTED_EXTENSIONS)\<close>, whose order is the
    iteration order of a Python set.
  \<^item> \<open>str_lower\<close> is \<open>str.lower\<close>, the lower-casing of the Unicode database.
  \<^item> \<open>ole_open\<close> is \<open>olefile.isOleFile\<close> followed by \<open>olefile.OleFileIO\<close>: \<open>None\<close> when
    the file is no OLE container.
  \<^item> \<open>inflate\<close> is \<open>zlib.decompress(raw, -15)\<close>, \<open>fromstring\<close> is \<open>ET.fromstring\<close>.
\<close>

section \<open>Archive/XML extractor: \<open>_extract_text_from_hwpx_xml\<close>, \<open>_parse_hwpx\<close>\<close>

text \<open>\<open>root.iter()\<close>: the element and its descendants, in document order.\<close>

fun iter :: "xml \<Rightarrow> xml list" where
  "iter (Element t x cs) = Element t x cs # concat (map iter cs)"

text \<open>The texts of the elements whose \<open>text\<close> is neither \<open>None\<close> nor empty.\<close>

definition collect_texts :: "xml list \<Rightarrow> str list" where
  "collect_texts elems =
     concat (map (\<lambda>elem. case elem_text elem of
                            None \<Rightarrow> []
                          | Some t \<Rightarrow> if t \<noteq> [] then [t] else []) elems)"

text \<open>\<open>root.findall(".//hp:t", {"hp": ns_uri})\<close>: the descendants with that qualified tag.\<close>

definition findall_t :: "xml \<Rightarrow> str \<Rightarrow> xml list" where
  "findall_t root ns_uri =
     filter (\<lambda>elem. elem_tag elem = [0x7B] @ ns_uri @ [0x7D, 0x74])
       (concat (map iter (elem_children root)))"

definition known_namespaces :: "str list" where
  "known_namespaces =
     [cps ''http://www.hancom.co.kr/hwpml/2011/paragraph'',
      cps ''http://www.hancom.co.kr/hwpml/2016/paragraph'',
      cps ''urn:hancom:hwpml:paragraph'']"

text \<open>The loop over the known namespaces, left at the first one that finds elements.\<close>

fun find_known :: "xml \<Rightarrow> str list \<Rightarrow> str list option" where
  "find_known root [] = None"
| "find_known root (ns_uri # rest) =
     (let elements = findall_t root ns_uri
      in if elements \<noteq> [] then Some (collect_texts elements) else find_known root rest)"

text \<open>\<open>elem.tag.split("}")[-1] if "}" in elem.tag else elem.tag\<close>.\<close>

definition local_name :: "str \<Rightarrow> str" where
  "local_name t = (if 0x7D \<in> set t then rev (takeWhile (\<lambda>c. c \<noteq> 0x7D) (rev t)) else t)"

definition extract_text_from_hwpx_xml :: "world \<Rightarrow> bytes \<Rightarrow> py_exception + str" where
  "extract_text_from_hwpx_xml w xml_data =
     (case fromstring w xml_data of
        Inl e \<Rightarrow> if exc_kind_of e = ParseError then Inr [] else Inl e
      | Inr root \<Rightarrow>
          (case find_known root known_namespaces of
             Some texts \<Rightarrow> Inr (join [0x0A] texts)
           | None \<Rightarrow>
               Inr (join [0x0A]
                 (collect_texts (filter (\<lambda>elem. local_name (elem_tag elem) = [0x74]) (iter root))))))"

text \<open>
  \<open>re.match(r'Contents/section\d+\.xml', f, re.IGNORECASE)\<close>, a match at the start of
  \<open>f\<close>. Under \<open>IGNORECASE\<close> a letter of the pattern matches its two ASCII cases and, for
  \<open>i\<close>, \<open>s\<close> and \<open>k\<close>, the four code points \<open>re_fold\<close> lists. \<open>\d\<close> matches the decimal
  digits of every script.
\<close>

definition re_fold :: "nat \<Rightarrow> nat" where
  "re_fold c =
     (if 0x41 \<le> c \<and> c \<le> 0x5A then c + 0x20
      else if c = 0x130 \<or> c = 0x131 then 0x69
      else if c = 0x17F then 0x73
      else if c = 0x212A then 0x6B
      else c)"

definition match_ignorecase :: "str \<Rightarrow> str \<Rightarrow> bool" where
  "match_ignorecase pat s \<longleftrightarrow>
     length pat \<le> length s \<and> map re_fold (take (length pat) s) = map re_fold pat"

definition matches_section :: "str \<Rightarrow> bool" where
  "matches_section f \<longleftrightarrow>
     (let rest = drop 16 f
      in match_ignorecase (cps ''Contents/section'') f \<and>
         takeWhile is_digit rest \<noteq> [] \<and>
         match_ignorecase (cps ''.xml'') (dropWhile is_digit rest))"

text \<open>The section entries in the order they are read; \<open>sorted\<close> compares code points.\<close>

definition section_files_hwpx :: "str list \<Rightarrow> str list" where
  "section_files_hwpx file_list =
     (let section_files = sort (filter matches_section file_list)
      in if section_files = [] then
           sort (filter (\<lambda>f. startswith f (cps ''Contents/'') \<and> endswith f (cps ''.xml'')) file_list)
         else section_files)"

fun read_sections :: "world \<Rightarrow> zip_archive \<Rightarrow> str list \<Rightarrow> str list \<Rightarrow> py_exception + str list" where
  "read_sections w zf [] extracted_texts = Inr extracted_texts"
| "read_sections w zf (section_file # rest) extracted_texts =
     (case zread zf section_file of
        Inl e \<Rightarrow> Inl e
      | Inr xml_data \<Rightarrow>
          (case extract_text_from_hwpx_xml w xml_data of
             Inl e \<Rightarrow> Inl e
           | Inr section_text \<Rightarrow>
               read_sections w zf rest
                 (if section_text \<noteq> [] then extracted_texts @ [section_text]
                  else extracted_texts)))"

definition PARSE_ERROR_TAG :: str where
  "PARSE_ERROR_TAG = [0x5B, 0xD30C, 0xC2F1, 0x20, 0xC624, 0xB958, 0x5D]"

definition NO_SECTIONS :: str where
  "NO_SECTIONS = PARSE_ERROR_TAG @
     [0x20, 0x48, 0x57, 0x50, 0x58, 0x20, 0xD30C, 0xC77C, 0xC5D0, 0x20, 0xBCF8, 0xBB38, 0x20,
      0xC139, 0xC158, 0xC774, 0x20, 0xC5C6, 0xC2B5, 0xB2C8, 0xB2E4, 0x2E]"

definition INVALID_HWPX :: str where
  "INVALID_HWPX = PARSE_ERROR_TAG @
     [0x20, 0xC720, 0xD6A8, 0xD558, 0xC9C0, 0x20, 0xC54A, 0xC740, 0x20, 0x48, 0x57, 0x50, 0x58,
      0x20, 0xD30C, 0xC77C, 0xC785, 0xB2C8, 0xB2E4, 0x2E]"

text \<open>
  \<open>_parse_hwpx\<close>: everything inside the \<open>try\<close> that raises \<open>BadZipFile\<close> gives the
  sentinel; any other exception leaves the function.
\<close>

definition parse_hwpx :: "world \<Rightarrow> str \<Rightarrow> py_exception + str" where
  "parse_hwpx w file_path =
     (case (case zip_open w file_path of
              Inl e \<Rightarrow> Inl e
            | Inr zf \<Rightarrow>
                (let section_files = section_files_hwpx (namelist zf)
                 in if section_files = [] then Inr NO_SECTIONS
                    else (case read_sections w zf section_files [] of
                            Inl e \<Rightarrow> Inl e
                          | Inr extracted_texts \<Rightarrow> Inr (join [0x0A] extracted_texts)))) of
        Inl e \<Rightarrow> if exc_kind_of e = BadZipFile then Inr INVALID_HWPX else Inl e
      | Inr text \<Rightarrow> Inr text)"

section \<open>Binary container extractor: \<open>_parse_hwp\<close>\<close>

text \<open>
  The sort key of a section stream, \<open>int(re.search(r'(\d+)$', x[-1]).group(1))\<close> or \<open>0\<close>:
  the digits that end the name (\<open>$\<close> also matches before one final line feed), read as
  a decimal number. A name may mix the digits of several scripts; \<open>int()\<close> reads each by
  its value.
\<close>

definition int_of_digits :: "str \<Rightarrow> int" where
  "int_of_digits ds =
     foldl (\<lambda>a d. 10 * a + (case decimal_value d of None \<Rightarrow> 0 | Some v \<Rightarrow> int v)) 0 ds"

definition section_number :: "str \<Rightarrow> int" where
  "section_number name =
     (let base = (if name \<noteq> [] \<and> last name = 0x0A then butlast name else name);
          ds = rev (takeWhile is_digit (rev base))
      in if ds = [] then 0 else int_of_digits ds)"

text \<open>
  The section streams in the order they are read. \<open>list.sort\<close> is stable, as \<open>sort_key\<close>
  is. Every path kept by the filter is non-empty, so \<open>x[-1]\<close> is its last name.
\<close>

definition section_streams_hwp :: "str list list \<Rightarrow> str list list" where
  "section_streams_hwp paths =
     sort_key (\<lambda>x. section_number (last x))
       (filter (\<lambda>stream_path. startswith (join [0x2F] stream_path) (cps ''BodyText/Section'')) paths)"






section \<open>Page extractor: \<open>_parse_pdf\<close>\<close>

fun pdf_pages :: "pdf_page list \<Rightarrow> str list \<Rightarrow> py_exception + str list" where
  "pdf_pages [] extracted_texts = Inr extracted_texts"
| "pdf_pages (page # rest) extracted_texts =
     (case page of
        Inl e \<Rightarrow> Inl e
      | Inr page_text \<Rightarrow>
          pdf_pages rest
            (case page_text of
               None \<Rightarrow> extracted_texts
             | Some t \<Rightarrow> if t \<noteq> [] then extracted_texts @ [t] else extracted_texts))"

definition PDF_OPEN_FAILED :: str where
  "PDF_OPEN_FAILED = PARSE_ERROR_TAG @
     [0x20, 0x50, 0x44, 0x46, 0x20, 0xD30C, 0xC77C, 0xC744, 0x20, 0xC5F4, 0x20, 0xC218, 0x20,
      0xC5C6, 0xC2B5, 0xB2C8, 0xB2E4, 0x3A, 0x20]"

definition MANUAL_CHECK :: str where
  "MANUAL_CHECK =
     [0x5B, 0xC218, 0xB3D9, 0x20, 0xD655, 0xC778, 0x20, 0xD544, 0xC694, 0x5D, 0x20, 0xC774, 0x20,
      0x50, 0x44, 0x46, 0xB294, 0x20, 0xC774, 0xBBF8, 0xC9C0, 0x20, 0xAE30, 0xBC18, 0x20, 0xBB38,
      0xC11C, 0xC785, 0xB2C8, 0xB2E4, 0x2E, 0x20, 0xD14D, 0xC2A4, 0xD2B8, 0xB97C, 0x20, 0xCD94,
      0xCD9C, 0xD560, 0x20, 0xC218, 0x20, 0xC5C6, 0xC2B5, 0xB2C8, 0xB2E4, 0x2E]"

definition parse_pdf :: "world \<Rightarrow> str \<Rightarrow> py_exception + str" where
  "parse_pdf w file_path =
     (case (case pdf_open w file_path of
              Inl e \<Rightarrow> Inl e
            | Inr pages \<Rightarrow> pdf_pages pages []) of
        Inl e \<Rightarrow> Inr (PDF_OPEN_FAILED @ exc_str e)
      | Inr extracted_texts \<Rightarrow>
          if extracted_texts = [] then Inr MANUAL_CHECK
          else Inr (join [0x0A] extracted_texts))"

section \<open>Format dispatcher: \<open>FileParser.parse\<close>\<close>











section \<open>Reference descriptions\<close>

text \<open>
  What the specification says a computation yields, written independently of the loops
  above, to compare them with.
\<close>

text \<open>The 2-byte little-endian code units of a payload; a trailing odd byte is no unit.\<close>

fun code_units :: "bytes \<Rightarrow> 16 word list" where
  "code_units (lo # hi # rest) = (ucast lo OR push_bit 8 (ucast hi)) # code_units rest"
| "code_units [b] = []"
| "code_units [] = []"

text \<open>What one code unit emits: a line feed, nothing, or its character.\<close>

definition emit_unit :: "16 word \<Rightarrow> str" where
  "emit_unit u = (if u = 0x000D then [0x0A] else if u \<le> 0x001F then [] else [unat u])"

text \<open>A character of the Basic Multilingual Plane that is no control code and no surrogate.\<close>

definition bmp_text :: "nat \<Rightarrow> bool" where
  "bmp_text c \<longleftrightarrow> 0x1F < c \<and> (c < 0xD800 \<or> (0xE000 \<le> c \<and> c < 0x10000))"

text \<open>
  What a record of a stream contributes: its decoded text when it is a text record
  (tag 67) and the text is not blank.
\<close>

definition record_texts :: "nat \<times> bytes \<times> nat \<Rightarrow> str list" where
  "record_texts r =
     (case r of (tag_id, data, level) \<Rightarrow>
        if tag_id mod 1024 = 67 then
          (case decode_hwp_text data of
             Inl e \<Rightarrow> []
           | Inr text \<Rightarrow> if strip text \<noteq> [] then [text] else [])
        else [])"

text \<open>The same without the test for blank text: every text record contributes.\<close>

definition record_texts_all :: "nat \<times> bytes \<times> nat \<Rightarrow> str list" where
  "record_texts_all r =
     (case r of (tag_id, data, level) \<Rightarrow>
        if tag_id mod 1024 = 67 then
          (case decode_hwp_text data of Inl e \<Rightarrow> [] | Inr text \<Rightarrow> [text])
        else [])"

text \<open>Pages: one that yields no text, one that returns at all, and the texts of the pages.\<close>

definition page_empty :: "pdf_page \<Rightarrow> bool" where
  "page_empty page \<longleftrightarrow> page = Inr None \<or> page = Inr (Some [])"

definition page_returns :: "pdf_page \<Rightarrow> bool" where
  "page_returns page \<longleftrightarrow> (case page of Inl e \<Rightarrow> False | Inr t \<Rightarrow> True)"

definition page_texts :: "pdf_page list \<Rightarrow> str list" where
  "page_texts pages =
     concat (map (\<lambda>page. case page of
                            Inl e \<Rightarrow> []
                          | Inr None \<Rightarrow> []
                          | Inr (Some t) \<Rightarrow> if t \<noteq> [] then [t] else []) pages)"

text \<open>The exception of the first page whose extraction raises.\<close>

fun first_raise :: "pdf_page list \<Rightarrow> py_exception option" where
  "first_raise [] = None"
| "first_raise (page # rest) = (case page of Inl e \<Rightarrow> Some e | Inr t \<Rightarrow> first_raise rest)"






subsection \<open>A small world for concrete runs\<close>

text \<open>
  Five archives (one with sections 9 and 10, one with a single entry outside the
  canonical naming, one with no entry under \<open>Contents/\<close>, one whose only entry is
  encrypted and cannot be read, one whose only section is not well-formed XML), three
  PDFs (a scan, a text document, and one whose second page cannot be extracted), one
  file that is no OLE container. The XML parser knows two documents, given by the bytes
  \<open>9\<close> and \<open>10\<close>, each with one text element. All the paths are ASCII, where \<open>str.lower\<close>
  changes the letters \<open>A\<close> to \<open>Z\<close> only.
\<close>

definition ascii_lower :: "str \<Rightarrow> str" where
  "ascii_lower s = map (\<lambda>c. if 0x41 \<le> c \<and> c \<le> 0x5A then c + 0x20 else c) s"

definition hp_t :: str where
  "hp_t = [0x7B] @ cps ''http://www.hancom.co.kr/hwpml/2011/paragraph'' @ [0x7D, 0x74]"

definition demo_fromstring :: "bytes \<Rightarrow> py_exception + xml" where
  "demo_fromstring b =
     (if b = [0x39] then Inr (Element (cps ''sec'') None [Element hp_t (Some (cps ''nine'')) []])
      else if b = [0x31, 0x30] then Inr (Element (cps ''sec'') None [Element hp_t (Some (cps ''ten'')) []])
      else Inl (PyExc ParseError (cps ''syntax error'')))"

definition demo_zip :: "str \<Rightarrow> py_exception + zip_archive" where
  "demo_zip p =
     (if p = cps ''doc.hwpx'' then
        Inr \<lparr>namelist = [cps ''mimetype'', cps ''Contents/section9.xml'', cps ''Contents/section10.xml''],
             zread = (\<lambda>f. if f = cps ''Contents/section9.xml'' then Inr [0x39]
                          else if f = cps ''Contents/section10.xml'' then Inr [0x31, 0x30]
                          else Inr [])\<rparr>
      else if p = cps ''alt.hwpx'' then
        Inr \<lparr>namelist = [cps ''mimetype'', cps ''Contents/body.xml''],
             zread = (\<lambda>f. if f = cps ''Contents/body.xml'' then Inr [0x39] else Inr [])\<rparr>
      else if p = cps ''empty.hwpx'' then
        Inr \<lparr>namelist = [cps ''mimetype''], zread = (\<lambda>f. Inr [])\<rparr>
      else if p = cps ''locked.hwpx'' then
        Inr \<lparr>namelist = [cps ''mimetype'', cps ''Contents/body.xml''],
             zread = (\<lambda>f. if f = cps ''Contents/body.xml''
                          then Inl (PyExc OtherException (cps ''password required''))
                          else Inr [])\<rparr>
      else if p = cps ''broken.hwpx'' then
        Inr \<lparr>namelist = [cps ''Contents/section0.xml''], zread = (\<lambda>f. Inr [0x3C])\<rparr>
      else Inl (PyExc BadZipFile (cps ''File is not a zip file'')))"

definition demo_pdf :: "str \<Rightarrow> py_exception + pdf_page list" where
  "demo_pdf p =
     (if p = cps ''scan.pdf'' then Inr [Inr (Some []), Inr None]
      else if p = cps ''text.pdf'' then Inr [Inr (Some (cps ''one'')), Inr None, Inr (Some (cps ''two''))]
      else if p = cps ''half.pdf'' then
        Inr [Inr (Some (cps ''one'')), Inl (PyExc OtherException (cps ''boom''))]
      else Inl (PyExc OtherException (cps ''No /Root object'')))"

definition demo_world :: world where
  "demo_world =
     \<lparr>path_exists = (\<lambda>p. p \<noteq> cps ''missing.pdf''),
      path_seps = [0x2F],
      supported_listing = cps ''.hwp, .hwpx, .pdf'',
      str_lower = ascii_lower,
      ole_open = (\<lambda>p. if p = cps ''bad.hwp'' then Inr None
                      else Inl (PyExc OtherException (cps ''not readable''))),
      zip_open = demo_zip,
      pdf_open = demo_pdf,
      inflate = (\<lambda>b. Inl (PyExc ZlibError (cps ''invalid stored block lengths''))),
      fromstring = demo_fromstring\<rparr>"

section \<open>Properties\<close>

declare decode_loop.simps [simp del]
declare extract_loop.simps [simp del]

subsection \<open>Text normalizer\<close>

text \<open>
  C3 (idempotence of the normalizer). The runs of line feeds are collapsed before the
  lines are stripped, so blank lines that hold a space survive the collapse and become
  a run of three line feeds only afterwards. On the input \<open>a\<close>, LF, space, LF, space, LF, \<open>b\<close>
  one application yields \<open>a\<close>, three line feeds, \<open>b\<close>; a second application yields \<open>a\<close>,
  two line feeds, \<open>b\<close>. The normalizer is not idempotent there.
\<close>

theorem clean_text_not_idempotent:
  "clean_text [97, 10, 32, 10, 32, 10, 98] = [97, 10, 10, 10, 98] \<and>
   clean_text (clean_text [97, 10, 32, 10, 32, 10, 98]) = [97, 10, 10, 98]"
  by (simp add: clean_text_def strip_def py_isspace_def)

subsection \<open>Payload text decoding\<close>

lemma drop_two:
  assumes "int i < int (length data) - 1"
  shows "drop i data = data ! i # data ! (i + 1) # drop (i + 2) data"
proof -
  from assms have a: "i < length data" and b: "Suc i < length data" by auto
  show ?thesis using Cons_nth_drop_Suc[OF a] Cons_nth_drop_Suc[OF b] by simp
qed

lemma code_units_short:
  assumes "\<not> int i < int (length data) - 1"
  shows "code_units (drop i data) = []"
proof -
  from assms have "length (drop i data) \<le> 1" by auto
  then show ?thesis by (cases "drop i data" rule: code_units.cases) auto
qed

lemma py_chr_unit: "py_chr (unat (code :: 16 word)) = Inr (unat code)"
proof -
  have "unat code < 2 ^ 16" using unsigned_less[of code] by simp
  then show ?thesis by (simp add: py_chr_def)
qed

lemma decode_loop_units:
  "decode_loop data i acc = Inr (concat acc @ concat (map emit_unit (code_units (drop i data))))"
proof (induction data i acc rule: decode_loop.induct)
  case (1 data i acc)
  show ?case
  proof (cases "int i < int (length data) - 1")
    case False
    then show ?thesis by (subst decode_loop.simps) (simp add: code_units_short)
  next
    case True
    define code :: "16 word" where "code = ucast (data ! i) OR push_bit 8 (ucast (data ! (i + 1)))"
    have u: "unpack_from_H data i = Inr code"
      using True by (simp add: unpack_from_H_def code_def)
    have d: "code_units (drop i data) = code # code_units (drop (i + 2) data)"
      using drop_two[OF True] by (simp add: code_def)
    show ?thesis
    proof (cases "code = 0x000D")
      case c1: True
      have e: "emit_unit code = [0x0A]" using c1 by (simp add: emit_unit_def)
      show ?thesis
        using "1.IH"(1)[OF True u c1] True u c1 d e
        by (subst decode_loop.simps) simp
    next
      case c1: False
      show ?thesis
      proof (cases "code \<le> 0x001F")
        case c2: True
        have e: "emit_unit code = []" using c1 c2 by (simp add: emit_unit_def)
        show ?thesis
        proof (cases "code \<in> set extended_controls")
          case c3: True
          show ?thesis
            using "1.IH"(2)[OF True u c1 c2 c3] True u c1 c2 c3 d e
            by (subst decode_loop.simps) simp
        next
          case c3: False
          show ?thesis
            using "1.IH"(3)[OF True u c1 c2 c3] True u c1 c2 c3 d e
            by (subst decode_loop.simps) simp
        qed
      next
        case c2: False
        have e: "emit_unit code = [unat code]" using c1 c2 by (simp add: emit_unit_def)
        show ?thesis
          using "1.IH"(5)[OF True u c1 c2 py_chr_unit] True u c1 c2 d e
          by (subst decode_loop.simps) (simp add: py_chr_unit)
      qed
    qed
  qed
qed

lemma decode_hwp_text_units:
  "decode_hwp_text data = Inr (concat (map emit_unit (code_units data)))"
  by (simp add: decode_hwp_text_def decode_loop_units)

text \<open>
  C6 (payload text decoding). For every payload, the decoder returns (it never raises)
  the concatenation, unit by unit, of what each 2-byte little-endian code unit emits:
  a line feed for \<open>0x000D\<close>, nothing for any other unit up to \<open>0x001F\<close>, the character of
  the unit otherwise. Every control code therefore takes exactly one unit: the unit
  after it is decoded on its own.
\<close>

theorem decode_hwp_text_by_units:
  "decode_hwp_text data = Inr (concat (map emit_unit (code_units data))) \<and>
   emit_unit 0x000D = [0x0A] \<and>
   emit_unit u = (if u = 0x000D then [0x0A] else if u \<le> 0x001F then [] else [unat u]) \<and>
   code_units (lo # hi # rest) = (ucast lo OR push_bit 8 (ucast hi)) # code_units rest"
  by (simp add: decode_hwp_text_units emit_unit_def)

subsection \<open>Round trip through UTF-16LE\<close>

lemma pack_H_roundtrip:
  "(ucast (ucast u :: 8 word) OR push_bit 8 (ucast (ucast (drop_bit 8 u) :: 8 word)) :: 16 word) = u"
proof (rule bit_eqI)
  fix n
  show "bit (ucast (ucast u :: 8 word) OR push_bit 8 (ucast (ucast (drop_bit 8 u) :: 8 word)) :: 16 word) n
     \<longleftrightarrow> bit u n"
    by (cases "n < 8") (auto simp: bit_simps dest: bit_imp_le_length)
qed

lemma code_units_pack_H: "code_units (pack_H u @ rest) = u # code_units rest"
  by (simp add: pack_H_def pack_H_roundtrip)

lemma emit_bmp:
  assumes "0x1F < c" "c < 0x10000"
  shows "emit_unit (of_nat c) = [c]"
proof -
  have u: "unat (of_nat c :: 16 word) = c" using assms by (simp add: unat_of_nat)
  show ?thesis
    using assms by (simp add: emit_unit_def word_le_nat_alt word_unat_eq_iff u)
qed

text \<open>
  Within the Basic Multilingual Plane the round trip holds: a string of such characters,
  none of them a control code, is encoded and decoded to itself.
\<close>

lemma roundtrip_bmp:
  "list_all bmp_text s \<Longrightarrow>
     \<exists>bs. encode_utf16le s = Some bs \<and> code_units bs = map of_nat s \<and>
          decode_hwp_text bs = Inr s"
proof (induction s)
  case Nil
  then show ?case by (simp add: decode_hwp_text_units)
next
  case (Cons c cs)
  then obtain bs where bs: "encode_utf16le cs = Some bs" "code_units bs = map of_nat cs"
     "decode_hwp_text bs = Inr cs"
    by auto
  from Cons.prems have c: "0x1F < c" "c < 0x10000" "utf16_units c = Some [of_nat c]"
    by (auto simp: bmp_text_def utf16_units_def)
  show ?case
    using bs emit_bmp[OF c(1,2)] c(3)
    by (intro exI[of _ "pack_H (of_nat c) @ bs"])
       (simp add: code_units_pack_H decode_hwp_text_units)
qed

text \<open>
  C2 (round trip for every string without control codes, also outside the Basic
  Multilingual Plane). The decoder turns every 16-bit code unit into one character, so
  the two surrogates that encode a character above \<open>U+FFFF\<close> come out as two characters.
  For the one-character string \<open>U+1F600\<close>: its UTF-16LE bytes are \<open>3D D8 00 DE\<close>, no code
  unit of which is a control code, and the decoder returns the two code points
  \<open>U+D83D\<close>, \<open>U+DE00\<close> instead of the string.
\<close>

theorem decode_splits_surrogate_pair:
  "encode_utf16le [0x1F600] = Some [0x3D, 0xD8, 0x00, 0xDE] \<and>
   code_units [0x3D, 0xD8, 0x00, 0xDE] = [0xD83D, 0xDE00] \<and>
   decode_hwp_text [0x3D, 0xD8, 0x00, 0xDE] = Inr [0xD83D, 0xDE00]"
  by (simp add: utf16_units_def pack_H_def decode_hwp_text_units emit_unit_def)

subsection \<open>Record headers\<close>

lemma mask_3FF: "(0x3FF :: 32 word) = mask 10"
  by (simp add: mask_eq_exp_minus_1)

lemma mask_FFF: "(0xFFF :: 32 word) = mask 12"
  by (simp add: mask_eq_exp_minus_1)

lemma tag_id_of_bits: "unat (tag_id_of h) = unat h mod 2 ^ 10"
  unfolding tag_id_of_def mask_3FF
  by (simp add: take_bit_eq_mask [symmetric] take_bit_eq_mod unat_mod)

lemma level_of_bits: "unat (level_of h) = unat h div 2 ^ 10 mod 2 ^ 10"
  unfolding level_of_def mask_3FF
  by (simp add: take_bit_eq_mask [symmetric] take_bit_eq_mod drop_bit_eq_div unat_mod unat_div)

lemma size_of_bits: "size_of h = unat h div 2 ^ 20"
proof -
  have "unat h < 2 ^ 32" using unsigned_less[of h] by simp
  then have "unat h div 2 ^ 20 < 2 ^ 12" by simp
  then show ?thesis
    unfolding size_of_def mask_FFF
    by (simp add: take_bit_eq_mask [symmetric] take_bit_eq_mod drop_bit_eq_div unat_mod unat_div)
qed

lemma header_fields:
  "h = tag_id_of h OR push_bit 10 (level_of h) OR push_bit 20 (of_nat (size_of h))"
  unfolding tag_id_of_def level_of_def size_of_def mask_3FF mask_FFF
proof (rule bit_eqI)
  fix n
  show "bit h n \<longleftrightarrow>
        bit (h AND mask 10 OR push_bit 10 (drop_bit 10 h AND mask 10) OR
             push_bit 20 (of_nat (unat (drop_bit 20 h AND mask 12)) :: 32 word)) n"
    by (cases "n < 10"; cases "n < 20") (auto simp: bit_simps dest: bit_imp_le_length)
qed

lemma header_plain:
  assumes "unpack_from_I data offset = Inr h" and "size_of h \<noteq> 0xFFF"
  shows "read_record_header data offset =
           (if offset + 4 + size_of h > length data then Break
            else Go (tag_id_of h, offset + 4, size_of h))"
proof -
  from assms(1) have "offset + 4 \<le> length data"
    by (auto simp: unpack_from_I_def split: if_splits)
  then show ?thesis using assms by (simp add: read_record_header_def read_size_def)
qed

lemma header_escape:
  assumes "unpack_from_I data offset = Inr h" and "size_of h = 0xFFF"
    and "unpack_from_I data (offset + 4) = Inr w"
  shows "read_record_header data offset =
           (if offset + 8 + unat w > length data then Break
            else Go (tag_id_of h, offset + 8, unat w))"
proof -
  from assms(3) have "offset + 8 \<le> length data"
    by (auto simp: unpack_from_I_def split: if_splits)
  then show ?thesis using assms by (simp add: read_record_header_def read_size_def)
qed

text \<open>
  C4 (layout of the record header, and the size escape). For the header word \<open>h\<close> read at
  \<open>offset\<close>: the tag is bits 0 to 9 of \<open>h\<close>, the level bits 10 to 19, the size bits 20 to
  31, and the three fields together are the whole word. When the size field is not
  \<open>0xFFF\<close> the payload starts right after the header and has that size. When it is
  \<open>0xFFF\<close> the payload size is the 4-byte little-endian unsigned integer \<open>w\<close> that follows
  the header, and the payload starts after it. (In both cases a payload that would
  leave the buffer ends the scan.) The source computes the tag and the size; the level
  is the field its commented-out line names, and no result depends on it.
\<close>

theorem record_header_layout:
  "unat (tag_id_of h) = unat h mod 2 ^ 10 \<and>
   unat (level_of h) = unat h div 2 ^ 10 mod 2 ^ 10 \<and>
   size_of h = unat h div 2 ^ 20 \<and>
   h = tag_id_of h OR push_bit 10 (level_of h) OR push_bit 20 (of_nat (size_of h)) \<and>
   (unpack_from_I data offset = Inr h \<longrightarrow> size_of h \<noteq> 0xFFF \<longrightarrow>
      read_record_header data offset =
        (if offset + 4 + size_of h > length data then Break
         else Go (tag_id_of h, offset + 4, size_of h))) \<and>
   (unpack_from_I data offset = Inr h \<longrightarrow> size_of h = 0xFFF \<longrightarrow>
    unpack_from_I data (offset + 4) = Inr w \<longrightarrow>
      read_size data (offset + 4) (size_of h) = Go (offset + 8, unat w) \<and>
      read_record_header data offset =
        (if offset + 8 + unat w > length data then Break
         else Go (tag_id_of h, offset + 8, unat w)))"
proof -
  have "read_size data (offset + 4) (size_of h) = Go (offset + 8, unat w)"
    if "size_of h = 0xFFF" "unpack_from_I data (offset + 4) = Inr w"
    using that by (auto simp: read_size_def unpack_from_I_def split: if_splits)
  then show ?thesis
    using tag_id_of_bits[of h] level_of_bits[of h] size_of_bits[of h] header_fields[of h]
      header_plain[of data offset h] header_escape[of data offset h w]
    by blast
qed

text \<open>
  A header with tag 67, level 5 and the escape in its size field, \<open>0xFFF01443\<close>, followed
  by the size 2 and a payload of two bytes; and the plain header \<open>0x00200043\<close>.
\<close>

theorem record_header_layout_witness:
  "unpack_from_I [0x43, 0x14, 0xF0, 0xFF, 0x02, 0, 0, 0, 0x41, 0] 0 = Inr 0xFFF01443 \<and>
   tag_id_of 0xFFF01443 = 67 \<and> level_of 0xFFF01443 = 5 \<and> size_of 0xFFF01443 = 0xFFF \<and>
   unpack_from_I [0x43, 0x14, 0xF0, 0xFF, 0x02, 0, 0, 0, 0x41, 0] 4 = Inr 2 \<and>
   read_record_header [0x43, 0x14, 0xF0, 0xFF, 0x02, 0, 0, 0, 0x41, 0] 0 = Go (67, 8, 2) \<and>
   unpack_from_I [0x43, 0, 0x20, 0, 0x41, 0] 0 = Inr 0x00200043 \<and>
   read_record_header [0x43, 0, 0x20, 0, 0x41, 0] 0 = Go (67, 4, 2)"
proof -
  have u1: "unpack_from_I [0x43, 0x14, 0xF0, 0xFF, 0x02, 0, 0, 0, 0x41, 0] 0 = Inr 0xFFF01443"
    by (simp add: unpack_from_I_def)
  have u2: "unpack_from_I [0x43, 0x14, 0xF0, 0xFF, 0x02, 0, 0, 0, 0x41, 0] 4 = Inr 2"
    by (simp add: unpack_from_I_def)
  have u3: "unpack_from_I [0x43, 0, 0x20, 0, 0x41, 0] 0 = Inr 0x00200043"
    by (simp add: unpack_from_I_def)
  have f: "tag_id_of 0xFFF01443 = 67" "level_of 0xFFF01443 = 5" "size_of 0xFFF01443 = 0xFFF"
    "tag_id_of 0x00200043 = 67" "size_of 0x00200043 = 2"
    by (simp_all add: tag_id_of_def level_of_def size_of_def)
  have a: "read_record_header [0x43, 0x14, 0xF0, 0xFF, 0x02, 0, 0, 0, 0x41, 0] 0 = Go (67, 8, 2)"
    using record_header_layout[of "0xFFF01443" "[0x43, 0x14, 0xF0, 0xFF, 0x02, 0, 0, 0, 0x41, 0]" 0 2]
      u1 u2 f by simp
  have b: "read_record_header [0x43, 0, 0x20, 0, 0x41, 0] 0 = Go (67, 4, 2)"
    using record_header_layout[of "0x00200043" "[0x43, 0, 0x20, 0, 0x41, 0]" 0 0] u3 f by simp
  show ?thesis using u1 u2 u3 f a b by simp
qed

subsection \<open>The tokenizer returns\<close>








subsection \<open>Streams of records\<close>

lemma pack_I_roundtrip:
  "(ucast (ucast w :: 8 word) OR push_bit 8 (ucast (ucast (drop_bit 8 w) :: 8 word)) OR
    push_bit 16 (ucast (ucast (drop_bit 16 w) :: 8 word)) OR
    push_bit 24 (ucast (ucast (drop_bit 24 w) :: 8 word)) :: 32 word) = w"
proof (rule bit_eqI)
  fix n
  show "bit (ucast (ucast w :: 8 word) OR push_bit 8 (ucast (ucast (drop_bit 8 w) :: 8 word)) OR
    push_bit 16 (ucast (ucast (drop_bit 16 w) :: 8 word)) OR
    push_bit 24 (ucast (ucast (drop_bit 24 w) :: 8 word)) :: 32 word) n
     \<longleftrightarrow> bit w n"
    by (cases "n < 8"; cases "n < 16"; cases "n < 24") (auto simp: bit_simps dest: bit_imp_le_length)
qed

lemma unpack_pack_I: "unpack_from_I (pre @ pack_I w @ rest) (length pre) = Inr w"
  by (simp add: unpack_from_I_def pack_I_def nth_append pack_I_roundtrip)

lemma built_header_tag:
  "tag_id_of ((a AND 0x3FF) OR push_bit 10 (b AND 0x3FF) OR push_bit 20 c) = a AND 0x3FF"
  unfolding tag_id_of_def mask_3FF
  by (rule bit_eqI) (auto simp: bit_simps)

lemma built_header_size:
  "size_of ((a AND 0x3FF) OR push_bit 10 (b AND 0x3FF) OR push_bit 20 (c AND 0xFFF)) = unat (c AND 0xFFF)"
proof -
  have "drop_bit 20 ((a AND mask 10) OR push_bit 10 (b AND mask 10) OR push_bit 20 (c AND mask 12)) AND mask 12
        = (c AND mask 12 :: 32 word)"
    by (rule bit_eqI) (auto simp: bit_simps)
  then show ?thesis unfolding size_of_def mask_3FF mask_FFF by simp
qed

lemma tag_67: "((of_nat t :: 32 word) AND 0x3FF = 67) \<longleftrightarrow> (t mod 1024 = 67)"
proof -
  have "unat ((of_nat t :: 32 word) AND 0x3FF) = t mod 1024"
    unfolding mask_3FF
    by (simp add: take_bit_eq_mask [symmetric] take_bit_eq_mod unat_mod unat_of_nat mod_mod_cancel)
  moreover have "((of_nat t :: 32 word) AND 0x3FF = 67) \<longleftrightarrow>
      unat ((of_nat t :: 32 word) AND 0x3FF) = unat (67 :: 32 word)"
    by (simp only: word_unat_eq_iff)
  ultimately show ?thesis by simp
qed

lemma small_size: "sz < 0xFFF \<Longrightarrow> unat ((of_nat sz :: 32 word) AND 0xFFF) = sz"
  unfolding mask_FFF
  by (simp add: take_bit_eq_mask [symmetric] take_bit_eq_mod unat_mod unat_of_nat)

lemma escape_size:
  "size_of ((a AND 0x3FF) OR push_bit 10 (b AND 0x3FF) OR push_bit 20 0xFFF) = 0xFFF"
  using built_header_size[of a b "0xFFF"] by simp

lemma record_step_built:
  assumes "build_hwp_record tag_id d level = Inr b"
  shows "record_step (pre @ b @ rest) (length pre) texts =
           Go (length pre + length b, texts @ record_texts (tag_id, d, level))"
proof (cases "length d \<ge> 0xFFF")
  case False
  define h :: "32 word" where
    "h = (of_nat tag_id AND 0x3FF) OR push_bit 10 (of_nat level AND 0x3FF) OR
         push_bit 20 (of_nat (length d) AND 0xFFF)"
  from assms False have b: "b = pack_I h @ d"
    by (auto simp: build_hwp_record_def h_def Let_def)
  have u: "unpack_from_I (pre @ pack_I h @ d @ rest) (length pre) = Inr h"
    by (rule unpack_pack_I)
  have sz: "size_of h = length d"
    unfolding h_def built_header_size using False by (simp add: small_size)
  have tg: "tag_id_of h = of_nat tag_id AND 0x3FF" unfolding h_def by (rule built_header_tag)
  have len: "length (pack_I h) = 4" by (simp add: pack_I_def)
  have hdr: "read_record_header (pre @ b @ rest) (length pre) =
               Go (tag_id_of h, length pre + 4, length d)"
    using False by (simp add: read_record_header_def u sz read_size_def b len)
  have pl: "take (length d) (drop (length pre + 4) (pre @ b @ rest)) = d"
    by (simp add: b len)
  show ?thesis
    by (simp add: record_step_def hdr pl tg tag_67 record_texts_def decode_hwp_text_units)
       (simp add: b len)
next
  case True
  define h :: "32 word" where
    "h = (of_nat tag_id AND 0x3FF) OR push_bit 10 (of_nat level AND 0x3FF) OR push_bit 20 0xFFF"
  from assms True have lt: "length d < 2 ^ 32"
    by (auto simp: build_hwp_record_def Let_def split: if_splits)
  from assms True have b: "b = pack_I h @ pack_I (of_nat (length d)) @ d"
    by (auto simp: build_hwp_record_def h_def Let_def split: if_splits)
  have len: "length (pack_I x) = 4" for x by (simp add: pack_I_def)
  have u: "unpack_from_I (pre @ pack_I h @ pack_I (of_nat (length d)) @ d @ rest) (length pre) = Inr h"
    by (rule unpack_pack_I)
  have u2: "unpack_from_I (pre @ pack_I h @ pack_I (of_nat (length d)) @ d @ rest) (length pre + 4)
              = Inr (of_nat (length d))"
    using unpack_pack_I[of "pre @ pack_I h" "of_nat (length d)" "d @ rest"] by (simp add: len)
  have sz: "size_of h = 0xFFF" unfolding h_def by (rule escape_size)
  have tg: "tag_id_of h = of_nat tag_id AND 0x3FF" unfolding h_def by (rule built_header_tag)
  have un: "unat (of_nat (length d) :: 32 word) = length d"
    using lt by (simp add: unat_of_nat)
  have hdr: "read_record_header (pre @ b @ rest) (length pre) =
               Go (tag_id_of h, length pre + 8, length d)"
    by (simp add: read_record_header_def u sz read_size_def u2 un b len)
  have pl: "take (length d) (drop (length pre + 8) (pre @ b @ rest)) = d"
    by (simp add: b len)
  show ?thesis
    by (simp add: record_step_def hdr pl tg tag_67 record_texts_def decode_hwp_text_units)
       (simp add: b len)
qed

lemma build_nonempty: "build_hwp_record tag_id d level = Inr b \<Longrightarrow> 0 < length b"
  by (auto simp: build_hwp_record_def Let_def pack_I_def split: if_splits)

lemma extract_loop_stream:
  "build_stream rs = Inr bs \<Longrightarrow>
     extract_loop (pre @ bs) (length pre) texts = Inr (texts @ concat (map record_texts rs))"
proof (induction rs arbitrary: pre bs texts)
  case Nil
  then show ?case by (subst extract_loop.simps) simp
next
  case (Cons r rs)
  obtain tag_id d level where r: "r = (tag_id, d, level)" by (cases r)
  from Cons.prems r obtain b bs' where
    b: "build_hwp_record tag_id d level = Inr b" and
    bs': "build_stream rs = Inr bs'" and bs: "bs = b @ bs'"
    by (auto split: sum.splits)
  have step: "record_step (pre @ bs) (length pre) texts =
                Go (length pre + length b, texts @ record_texts r)"
    using record_step_built[OF b, of pre bs' texts] by (simp add: bs r)
  have "extract_loop (pre @ bs) (length pre) texts =
          extract_loop (pre @ bs) (length pre + length b) (texts @ record_texts r)"
    using build_nonempty[OF b] by (subst extract_loop.simps) (simp add: step[unfolded bs] bs)
  also have "\<dots> = Inr ((texts @ record_texts r) @ concat (map record_texts rs))"
    using Cons.IH[OF bs', of "pre @ b" "texts @ record_texts r"] by (simp add: bs)
  finally show ?case by simp
qed

text \<open>
  C7 as stated fails: a text record whose decoded text is blank contributes nothing.
  Three text records with the payloads \<open>a\<close>, space, \<open>b\<close> give \<open>a\<close>, LF, \<open>b\<close>; were every
  text record to contribute its full text, the result would be \<open>a\<close>, LF, space, LF, \<open>b\<close>.
\<close>

theorem blank_record_contributes_nothing:
  "build_stream [(67, [0x61, 0], 0), (67, [0x20, 0], 0), (67, [0x62, 0], 0)] =
     Inr [0x43, 0, 0x20, 0, 0x61, 0, 0x43, 0, 0x20, 0, 0x20, 0, 0x43, 0, 0x20, 0, 0x62, 0] \<and>
   extract_text_from_hwp_records
     [0x43, 0, 0x20, 0, 0x61, 0, 0x43, 0, 0x20, 0, 0x20, 0, 0x43, 0, 0x20, 0, 0x62, 0] =
     Inr [0x61, 0x0A, 0x62] \<and>
   join [0x0A] (concat (map record_texts_all
     [(67, [0x61, 0], 0), (67, [0x20, 0], 0), (67, [0x62, 0], 0)])) =
     [0x61, 0x0A, 0x20, 0x0A, 0x62]"
  by (simp add: build_hwp_record_def pack_I_def extract_text_from_hwp_records_def
      extract_loop.simps record_step_def read_record_header_def read_size_def
      unpack_from_I_def size_of_def tag_id_of_def decode_hwp_text_units emit_unit_def
      strip_def py_isspace_def record_texts_all_def)

text \<open>
  C7, amended. For every stream built record by record, the section result is the
  decoded texts of its text records (tag 67) whose text is not blank, each in full, in
  stream order, joined by line feeds; a record with another tag contributes nothing,
  whatever its payload, and neither does a text record whose text is blank.
\<close>

theorem extract_stream_texts:
  "build_stream rs = Inr bs \<Longrightarrow>
     extract_text_from_hwp_records bs = Inr (join [0x0A] (concat (map record_texts rs))) \<and>
     (\<forall>tag_id data level. tag_id mod 1024 \<noteq> 67 \<longrightarrow> record_texts (tag_id, data, level) = []) \<and>
     (\<forall>data level text. decode_hwp_text data = Inr text \<longrightarrow> strip text \<noteq> [] \<longrightarrow>
        record_texts (67, data, level) = [text])"
  using extract_loop_stream[of rs bs "[]" "[]"]
  by (simp add: extract_text_from_hwp_records_def record_texts_def)

text \<open>A record with tag 10 between two text records, \<open>a\<close> and \<open>b\<close>.\<close>

theorem extract_stream_texts_witness:
  "build_stream [(67, [0x61, 0], 0), (10, [0x63, 0], 0), (67, [0x62, 0], 0)] =
     Inr [0x43, 0, 0x20, 0, 0x61, 0, 0x0A, 0, 0x20, 0, 0x63, 0, 0x43, 0, 0x20, 0, 0x62, 0] \<and>
   extract_text_from_hwp_records
     [0x43, 0, 0x20, 0, 0x61, 0, 0x0A, 0, 0x20, 0, 0x63, 0, 0x43, 0, 0x20, 0, 0x62, 0] =
     Inr [0x61, 0x0A, 0x62] \<and>
   record_texts (10, [0x63, 0], 0) = [] \<and>
   decode_hwp_text [0x61, 0] = Inr [0x61] \<and>
   record_texts (67, [0x61, 0], 0) = [[0x61]]"
proof -
  have b: "build_stream [(67, [0x61, 0], 0), (10, [0x63, 0], 0), (67, [0x62, 0], 0)] =
     Inr [0x43, 0, 0x20, 0, 0x61, 0, 0x0A, 0, 0x20, 0, 0x63, 0, 0x43, 0, 0x20, 0, 0x62, 0]"
    by (simp add: build_hwp_record_def pack_I_def)
  have d: "decode_hwp_text [0x61, 0] = Inr [0x61]" "decode_hwp_text [0x62, 0] = Inr [0x62]"
    by (simp_all add: decode_hwp_text_units emit_unit_def)
  have s: "strip [0x61] \<noteq> []" "strip [0x62] \<noteq> []" by (simp_all add: strip_def py_isspace_def)
  note t = extract_stream_texts[OF b]
  from t d s have r: "record_texts (10, [0x63, 0], 0) = []"
    "record_texts (67, [0x61, 0], 0) = [[0x61]]" "record_texts (67, [0x62, 0], 0) = [[0x62]]"
    by simp_all
  from t r have "extract_text_from_hwp_records
     [0x43, 0, 0x20, 0, 0x61, 0, 0x0A, 0, 0x20, 0, 0x63, 0, 0x43, 0, 0x20, 0, 0x62, 0] =
     Inr [0x61, 0x0A, 0x62]" by simp
  then show ?thesis using b d r by simp
qed

subsection \<open>Decimal digits\<close>

lemma decimal_value_low:
  "c < 0x660 \<Longrightarrow>
     decimal_value c = (if 0x30 \<le> c \<and> c \<le> 0x39 then Some (c - 0x30) else None)"
  by (simp add: decimal_value_def decimal_zeros_def)

lemma is_digit_low: "c < 0x660 \<Longrightarrow> is_digit c \<longleftrightarrow> 0x30 \<le> c \<and> c \<le> 0x39"
  by (simp add: is_digit_def decimal_value_low)

text \<open>
  The digits of other scripts count: with ARABIC-INDIC DIGIT THREE for its number, an
  entry is a section entry and a stream is section 3.
\<close>

lemma arabic_indic_three: "decimal_value 0x663 = Some 3" "is_digit 0x663"
  by (simp_all add: is_digit_def decimal_value_def decimal_zeros_def)

lemma arabic_indic_section:
  "matches_section (cps ''Contents/section'' @ [0x663] @ cps ''.xml'') \<and>
   section_number (cps ''Section'' @ [0x663]) = 3"
  by (simp add: matches_section_def match_ignorecase_def re_fold_def cps_def section_number_def
      int_of_digits_def is_digit_low arabic_indic_three)

subsection \<open>Page extractor\<close>

lemma pdf_pages_returns:
  "list_all page_returns pages \<Longrightarrow> pdf_pages pages acc = Inr (acc @ page_texts pages)"
proof (induction pages arbitrary: acc)
  case Nil
  then show ?case by (simp add: page_texts_def)
next
  case (Cons page pages)
  then show ?case
    by (cases page) (auto simp: page_returns_def page_texts_def split: option.splits)
qed

lemma pdf_pages_raises: "first_raise pages = Some e \<Longrightarrow> pdf_pages pages acc = Inl e"
  by (induction pages arbitrary: acc) (auto split: sum.splits)

lemma first_raise_cases: "list_all page_returns pages \<or> (\<exists>e. first_raise pages = Some e)"
  by (induction pages) (auto simp: page_returns_def split: sum.splits)

lemma page_empty_returns: "page_empty page \<Longrightarrow> page_returns page"
  by (auto simp: page_empty_def page_returns_def)

lemma page_texts_empty: "list_all page_empty pages \<Longrightarrow> page_texts pages = []"
  by (induction pages) (auto simp: page_texts_def page_empty_def)

lemma page_texts_nonempty: "Inr (Some t) \<in> set pages \<Longrightarrow> t \<noteq> [] \<Longrightarrow> page_texts pages \<noteq> []"
  by (induction pages) (auto simp: page_texts_def)


lemma parse_pdf_page_raises:
  "pdf_open w p = Inr pages \<Longrightarrow> first_raise pages = Some e \<Longrightarrow>
     parse_pdf w p = Inr (PDF_OPEN_FAILED @ exc_str e)"
  by (simp add: parse_pdf_def pdf_pages_raises)

text \<open>
  C8 as stated fails: the page loop runs inside the \<open>try\<close> that guards the opening of
  the document. A PDF that opens, whose first page yields the text \<open>one\<close> and whose
  second page raises on extraction, gives the sentinel for a document that cannot be
  opened; the text of the first page is not in the result.
\<close>

theorem page_failure_discards_texts:
  "pdf_open demo_world (cps ''half.pdf'') =
     Inr [Inr (Some (cps ''one'')), Inl (PyExc OtherException (cps ''boom''))] \<and>
   page_texts [Inr (Some (cps ''one'')), Inl (PyExc OtherException (cps ''boom''))] = [cps ''one''] \<and>
   parse_pdf demo_world (cps ''half.pdf'') = Inr (PDF_OPEN_FAILED @ cps ''boom'') \<and>
   parse_pdf demo_world (cps ''half.pdf'') \<noteq>
     Inr (join [0x0A] (page_texts [Inr (Some (cps ''one'')), Inl (PyExc OtherException (cps ''boom''))]))"
proof -
  have o: "pdf_open demo_world (cps ''half.pdf'') =
     Inr [Inr (Some (cps ''one'')), Inl (PyExc OtherException (cps ''boom''))]"
    by (simp add: demo_world_def demo_pdf_def cps_def)
  have t: "page_texts [Inr (Some (cps ''one'')), Inl (PyExc OtherException (cps ''boom''))] = [cps ''one'']"
    by (simp add: page_texts_def cps_def)
  have r: "parse_pdf demo_world (cps ''half.pdf'') = Inr (PDF_OPEN_FAILED @ cps ''boom'')"
    by (simp add: parse_pdf_def o)
  have n: "PDF_OPEN_FAILED @ cps ''boom'' \<noteq> cps ''one''"
    by (simp add: PDF_OPEN_FAILED_def PARSE_ERROR_TAG_def cps_def)
  show ?thesis using o t r n by simp
qed

text \<open>
  C8, amended. For a PDF that opens with the pages \<open>pages\<close>: when every page yields no
  text (\<open>None\<close> or the empty string) the extractor returns the manual-check sentinel,
  which is not the empty string, and it does not raise; when the extraction of every
  page returns and at least one page yields text, it returns the non-empty page texts
  in page order, joined by line feeds; when the extraction of a page raises, it
  returns the sentinel for a document that cannot be opened, with the text of the
  exception, and no page text. One of the last two cases always applies.
\<close>

theorem parse_pdf_scan_or_text:
  "pdf_open w p = Inr pages \<Longrightarrow>
     (list_all page_empty pages \<longrightarrow> parse_pdf w p = Inr MANUAL_CHECK) \<and>
     MANUAL_CHECK \<noteq> [] \<and>
     (list_all page_returns pages \<longrightarrow> (\<exists>t. Inr (Some t) \<in> set pages \<and> t \<noteq> []) \<longrightarrow>
        parse_pdf w p = Inr (join [0x0A] (page_texts pages))) \<and>
     (\<forall>e. first_raise pages = Some e \<longrightarrow> parse_pdf w p = Inr (PDF_OPEN_FAILED @ exc_str e)) \<and>
     (list_all page_returns pages \<or> (\<exists>e. first_raise pages = Some e))"
proof -
  assume o: "pdf_open w p = Inr pages"
  have a: "parse_pdf w p = Inr MANUAL_CHECK" if e: "list_all page_empty pages"
  proof -
    from e have "list_all page_returns pages"
      by (induction pages) (auto intro: page_empty_returns)
    then have "pdf_pages pages [] = Inr (page_texts pages)"
      using pdf_pages_returns[of pages "[]"] by simp
    then show ?thesis using page_texts_empty[OF e] by (simp add: parse_pdf_def o)
  qed
  have b: "parse_pdf w p = Inr (join [0x0A] (page_texts pages))"
    if r: "list_all page_returns pages" and t: "\<exists>t. Inr (Some t) \<in> set pages \<and> t \<noteq> []"
  proof -
    from t have "page_texts pages \<noteq> []" using page_texts_nonempty by blast
    then show ?thesis using pdf_pages_returns[OF r, of "[]"] by (simp add: parse_pdf_def o)
  qed
  have c: "MANUAL_CHECK \<noteq> []" by (simp add: MANUAL_CHECK_def)
  have d: "\<forall>e. first_raise pages = Some e \<longrightarrow> parse_pdf w p = Inr (PDF_OPEN_FAILED @ exc_str e)"
    using parse_pdf_page_raises[OF o] by blast
  show ?thesis using a b c d first_raise_cases[of pages] by blast
qed

text \<open>
  A scan of two pages, a document whose second page of three holds no text, and the
  document whose second page raises.
\<close>

theorem parse_pdf_scan_or_text_witness:
  "pdf_open demo_world (cps ''scan.pdf'') = Inr [Inr (Some []), Inr None] \<and>
   list_all page_empty [Inr (Some []), Inr None] \<and>
   parse_pdf demo_world (cps ''scan.pdf'') = Inr MANUAL_CHECK \<and>
   pdf_open demo_world (cps ''text.pdf'') =
     Inr [Inr (Some (cps ''one'')), Inr None, Inr (Some (cps ''two''))] \<and>
   parse_pdf demo_world (cps ''text.pdf'') = Inr (cps ''one'' @ [0x0A] @ cps ''two'') \<and>
   first_raise [Inr (Some (cps ''one'')), Inl (PyExc OtherException (cps ''boom''))] =
     Some (PyExc OtherException (cps ''boom'')) \<and>
   parse_pdf demo_world (cps ''half.pdf'') = Inr (PDF_OPEN_FAILED @ cps ''boom'')"
proof -
  have o1: "pdf_open demo_world (cps ''scan.pdf'') = Inr [Inr (Some []), Inr None]"
    by (simp add: demo_world_def demo_pdf_def)
  have o2: "pdf_open demo_world (cps ''text.pdf'') =
      Inr [Inr (Some (cps ''one'')), Inr None, Inr (Some (cps ''two''))]"
    by (simp add: demo_world_def demo_pdf_def cps_def)
  have o3: "pdf_open demo_world (cps ''half.pdf'') =
     Inr [Inr (Some (cps ''one'')), Inl (PyExc OtherException (cps ''boom''))]"
    by (simp add: demo_world_def demo_pdf_def cps_def)
  have e: "list_all page_empty [Inr (Some []), Inr None]"
    by (simp add: page_empty_def)
  have r: "list_all page_returns [Inr (Some (cps ''one'')), Inr None, Inr (Some (cps ''two''))]"
    by (simp add: page_returns_def)
  have t: "\<exists>t. Inr (Some t) \<in> set [Inr (Some (cps ''one'')), Inr None, Inr (Some (cps ''two''))] \<and> t \<noteq> []"
    by (intro exI[of _ "cps ''one''"]) (simp add: cps_def)
  have x: "page_texts [Inr (Some (cps ''one'')), Inr None, Inr (Some (cps ''two''))] =
      [cps ''one'', cps ''two'']"
    by (simp add: page_texts_def cps_def)
  have f: "first_raise [Inr (Some (cps ''one'')), Inl (PyExc OtherException (cps ''boom''))] =
     Some (PyExc OtherException (cps ''boom''))"
    by simp
  from parse_pdf_scan_or_text[OF o1] e
  have a: "parse_pdf demo_world (cps ''scan.pdf'') = Inr MANUAL_CHECK" by blast
  from parse_pdf_scan_or_text[OF o2] r t
  have "parse_pdf demo_world (cps ''text.pdf'') =
      Inr (join [0x0A] (page_texts [Inr (Some (cps ''one'')), Inr None, Inr (Some (cps ''two''))]))"
    by blast
  then have b: "parse_pdf demo_world (cps ''text.pdf'') = Inr (cps ''one'' @ [0x0A] @ cps ''two'')"
    by (simp add: x)
  from parse_pdf_scan_or_text[OF o3] f
  have c: "parse_pdf demo_world (cps ''half.pdf'') = Inr (PDF_OPEN_FAILED @ cps ''boom'')"
    by simp
  show ?thesis using o1 o2 e a b c f by simp
qed

subsection \<open>Archive entries\<close>











subsection \<open>Order of the sections\<close>

text \<open>
  The section streams of the binary container are read in ascending order of their
  numeric suffix.
\<close>

lemma section_streams_hwp_sorted:
  "sorted (map (\<lambda>x. section_number (last x)) (section_streams_hwp paths))"
  by (simp add: section_streams_hwp_def)

text \<open>
  C5 (sections in ascending numeric-suffix order, in both formats). The binary
  container sorts its streams by the number that ends the name: \<open>Section10\<close> comes after
  \<open>Section9\<close>. The archive sorts its entries as strings: \<open>Contents/section10.xml\<close> comes
  before \<open>Contents/section9.xml\<close>, and the text of section 10 precedes the text of section
  9 in the result.
\<close>

theorem hwpx_sections_sorted_as_strings:
  "section_streams_hwp [[cps ''BodyText'', cps ''Section10''], [cps ''BodyText'', cps ''Section9'']] =
     [[cps ''BodyText'', cps ''Section9''], [cps ''BodyText'', cps ''Section10'']] \<and>
   section_files_hwpx [cps ''mimetype'', cps ''Contents/section9.xml'', cps ''Contents/section10.xml''] =
     [cps ''Contents/section10.xml'', cps ''Contents/section9.xml''] \<and>
   parse_hwpx demo_world (cps ''doc.hwpx'') = Inr (cps ''ten'' @ [0x0A] @ cps ''nine'')"
proof -
  have a: "section_streams_hwp [[cps ''BodyText'', cps ''Section10''], [cps ''BodyText'', cps ''Section9'']] =
     [[cps ''BodyText'', cps ''Section9''], [cps ''BodyText'', cps ''Section10'']]"
    by (simp add: section_streams_hwp_def startswith_def section_number_def is_digit_low
        int_of_digits_def decimal_value_low cps_def)
  have b: "section_files_hwpx [cps ''mimetype'', cps ''Contents/section9.xml'', cps ''Contents/section10.xml''] =
     [cps ''Contents/section10.xml'', cps ''Contents/section9.xml'']"
    by (simp add: section_files_hwpx_def matches_section_def match_ignorecase_def re_fold_def
        is_digit_low cps_def)
  have x9: "extract_text_from_hwpx_xml demo_world [0x39] = Inr (cps ''nine'')"
    by (simp add: extract_text_from_hwpx_xml_def demo_world_def demo_fromstring_def
        known_namespaces_def findall_t_def hp_t_def collect_texts_def cps_def)
  have x10: "extract_text_from_hwpx_xml demo_world [0x31, 0x30] = Inr (cps ''ten'')"
    by (simp add: extract_text_from_hwpx_xml_def demo_world_def demo_fromstring_def
        known_namespaces_def findall_t_def hp_t_def collect_texts_def cps_def)
  have o: "zip_open demo_world (cps ''doc.hwpx'') =
      Inr \<lparr>namelist = [cps ''mimetype'', cps ''Contents/section9.xml'', cps ''Contents/section10.xml''],
           zread = (\<lambda>f. if f = cps ''Contents/section9.xml'' then Inr [0x39]
                        else if f = cps ''Contents/section10.xml'' then Inr [0x31, 0x30]
                        else Inr [])\<rparr>"
    by (simp add: demo_world_def demo_zip_def)
  have ne: "cps ''Contents/section10.xml'' \<noteq> cps ''Contents/section9.xml''" "cps ''ten'' \<noteq> []" "cps ''nine'' \<noteq> []"
    by (simp_all add: cps_def)
  have c: "parse_hwpx demo_world (cps ''doc.hwpx'') = Inr (cps ''ten'' @ [0x0A] @ cps ''nine'')"
    by (simp add: parse_hwpx_def o b x9 x10 ne)
  show ?thesis using a b c by simp
qed

subsection \<open>Format dispatcher\<close>


















end
